theory Spec2Isabelle
  imports Complex_Main "HOL-Library.Word" "HOL-Library.Numeral_Type"
begin

section \<open>NebulaiNode: the high-speed worker (nebula_highspeed.py)\<close>

text \<open>
  A shallow embedding of \<^verbatim>\<open>src/nebula_highspeed.py\<close>.

  Conventions of the model.
  \<^item> Python integers are \<^typ>\<open>int\<close>. A float64 is idealised as a \<^typ>\<open>real\<close>: rounding,
    infinities, NaN and the signed zero are outside the model. The matrices the program
    builds hold whole numbers far below \<open>2 ^ 53\<close>, which float64 represents exactly.
  \<^item> An exception is a value of \<open>exn\<close>; a function that can raise returns \<open>exn + 'a\<close>
    with \<open>Inl\<close> the exception.
  \<^item> \<^verbatim>\<open>hashlib.sha256\<close> is a library function and a parameter \<open>sha\<close> of the model: it
    maps the bytes of a string to the 256-bit digest, and \<^verbatim>\<open>int(hexdigest, 16)\<close> reads the
    digest as an unsigned integer.
  \<^item> The per-event console lines are not modelled; the summary line is the returned
    statistics.
\<close>

datatype exn = ValueError | TypeError | KeyError | AttributeError | ZeroDivisionError

type_synonym matrix = "real list list"

subsection \<open>Matrix engine\<close>

text \<open>The constants \<^verbatim>\<open>a, b = 0x4b72e682d, 0x2675dcd22\<close> of \<^verbatim>\<open>generate_matrix\<close>.\<close>

definition lcg_a :: int where
  "lcg_a = 20253141037"

definition lcg_b :: int where
  "lcg_b = 10324135202"

text \<open>The assignment \<^verbatim>\<open>value = (a * current_seed + b) % 1000\<close>.\<close>

definition lcg_next :: "int \<Rightarrow> int" where
  "lcg_next current_seed = (lcg_a * current_seed + lcg_b) mod 1000"

text \<open>
  The inner loop \<^verbatim>\<open>for j in range(size)\<close>, run for \<open>n\<close> more columns: it returns the cells
  written and the value of \<^verbatim>\<open>current_seed\<close> after the row.
\<close>

fun gen_row :: "nat \<Rightarrow> int \<Rightarrow> real list \<times> int" where
  "gen_row 0 current_seed = ([], current_seed)"
| "gen_row (Suc n) current_seed =
     (let v = lcg_next current_seed;
          (cells, s) = gen_row n v
      in (real_of_int v # cells, s))"

text \<open>The outer loop \<^verbatim>\<open>for i in range(size)\<close>, run for \<open>m\<close> more rows of \<open>sz\<close> columns.\<close>

fun gen_rows :: "nat \<Rightarrow> nat \<Rightarrow> int \<Rightarrow> matrix" where
  "gen_rows 0 sz current_seed = []"
| "gen_rows (Suc m) sz current_seed =
     (let (row, s) = gen_row sz current_seed
      in row # gen_rows m sz s)"

text \<open>
  \<^verbatim>\<open>generate_matrix(seed, size)\<close>. \<^verbatim>\<open>np.empty((size, size))\<close> raises ValueError on a
  negative size.
\<close>

definition generate_matrix :: "int \<Rightarrow> int \<Rightarrow> exn + matrix" where
  "generate_matrix seed sz =
     (if sz < 0 then Inl ValueError
      else Inr (gen_rows (nat sz) (nat sz) seed))"

text \<open>\<^verbatim>\<open>matrix.flat\<close>: the entries in row-major order.\<close>

definition flat :: "matrix \<Rightarrow> real list" where
  "flat M = concat M"

text \<open>
  \<^verbatim>\<open>multiply_matrices(a, b)\<close>, the product \<^verbatim>\<open>a @ b\<close> of two-dimensional arrays. A matrix
  is the list of its rows; the product needs every row of \<open>A\<close> as long as \<open>B\<close> has rows and
  raises ValueError otherwise.
\<close>

definition dot :: "real list \<Rightarrow> real list \<Rightarrow> real" where
  "dot xs ys = sum_list (map2 (*) xs ys)"

definition ncols :: "matrix \<Rightarrow> nat" where
  "ncols B = (case B of [] \<Rightarrow> 0 | r # _ \<Rightarrow> length r)"

definition column :: "matrix \<Rightarrow> nat \<Rightarrow> real list" where
  "column B j = map (\<lambda>r. r ! j) B"

definition multiply_matrices :: "matrix \<Rightarrow> matrix \<Rightarrow> exn + matrix" where
  "multiply_matrices A B =
     (if list_all (\<lambda>row. length row = length B) A
      then Inr (map (\<lambda>row. map (\<lambda>j. dot row (column B j)) [0..<ncols B]) A)
      else Inl ValueError)"

text \<open>
  The format \<^verbatim>\<open>f"{x:.0f}"\<close>: no digit after the point, the value rounded to the nearest
  integer with a tie going to the even neighbour, a minus sign for a negative value (also
  when it rounds to zero).
\<close>

definition round_half_even :: "real \<Rightarrow> int" where
  "round_half_even x =
     (let f = \<lfloor>x\<rfloor>; d = x - real_of_int f
      in if d < 1 / 2 then f
         else if 1 / 2 < d then f + 1
         else if even f then f else f + 1)"

definition digit_char :: "nat \<Rightarrow> char" where
  "digit_char d = char_of (48 + d)"

fun dec_nat :: "nat \<Rightarrow> string" where
  "dec_nat n = (if n < 10 then [digit_char n] else dec_nat (n div 10) @ [digit_char (n mod 10)])"

declare dec_nat.simps [simp del]

definition format_0f :: "real \<Rightarrow> string" where
  "format_0f x = (if x < 0 then ''-'' else []) @ dec_nat (nat (round_half_even \<bar>x\<bar>))"

text \<open>\<^verbatim>\<open>flatten_matrix(matrix)\<close>: the join of \<^verbatim>\<open>f"{x:.0f}"\<close> over \<^verbatim>\<open>matrix.flat\<close>.\<close>

definition flatten_matrix :: "matrix \<Rightarrow> string" where
  "flatten_matrix M = concat (map format_0f (flat M))"

text \<open>
  \<^verbatim>\<open>compute_hash_mod(matrix, mod)\<close>. The string holds digits and minus signs only, so
  \<^verbatim>\<open>encode()\<close> gives its characters as bytes. Python's \<^verbatim>\<open>%\<close> raises on a zero modulus and
  takes the sign of the modulus, as \<open>mod\<close> on \<^typ>\<open>int\<close> does.
\<close>

type_synonym sha256 = "string \<Rightarrow> 256 word"

definition compute_hash_mod :: "sha256 \<Rightarrow> matrix \<Rightarrow> int \<Rightarrow> exn + int" where
  "compute_hash_mod sha M m =
     (let flat_str = flatten_matrix M;
          digest = sha flat_str
      in if m = 0 then Inl ZeroDivisionError else Inr (uint digest mod m))"

subsection \<open>JSON values and Python's dynamic operations on them\<close>

text \<open>
  What \<^verbatim>\<open>resp.json()\<close> returns. JSON numbers with a fraction or an exponent (Python floats)
  are outside the model. An object is the list of its members, each key once; \<open>JNull\<close> is
  Python's \<^verbatim>\<open>None\<close>.
\<close>

datatype json =
    JNull
  | JBool bool
  | JInt int
  | JStr string
  | JArr "json list"
  | JObj "(string \<times> json) list"

text \<open>\<^verbatim>\<open>d.get(k, default)\<close>: only a dict has the method.\<close>

fun py_get :: "json \<Rightarrow> string \<Rightarrow> json \<Rightarrow> exn + json" where
  "py_get (JObj kvs) k dflt = Inr (case map_of kvs k of None \<Rightarrow> dflt | Some v \<Rightarrow> v)"
| "py_get _ k dflt = Inl AttributeError"

text \<open>\<^verbatim>\<open>d[k]\<close> with a string key: KeyError on a dict without the key, TypeError on any other value.\<close>

fun py_item :: "json \<Rightarrow> string \<Rightarrow> exn + json" where
  "py_item (JObj kvs) k = (case map_of kvs k of None \<Rightarrow> Inl KeyError | Some v \<Rightarrow> Inr v)"
| "py_item _ k = Inl TypeError"

text \<open>\<^verbatim>\<open>v == n\<close> for an integer literal: a bool compares as 0 or 1.\<close>

fun eq_int :: "json \<Rightarrow> int \<Rightarrow> bool" where
  "eq_int (JInt i) n = (i = n)"
| "eq_int (JBool b) n = ((if b then 1 else 0) = n)"
| "eq_int _ n = False"

text \<open>\<^verbatim>\<open>v == s\<close> for a string literal.\<close>

fun eq_str :: "json \<Rightarrow> string \<Rightarrow> bool" where
  "eq_str (JStr t) s = (t = s)"
| "eq_str _ s = False"

text \<open>The truth value of a JSON value in a condition.\<close>

fun truthy :: "json \<Rightarrow> bool" where
  "truthy JNull = False"
| "truthy (JBool b) = b"
| "truthy (JInt i) = (i \<noteq> 0)"
| "truthy (JStr s) = (s \<noteq> [])"
| "truthy (JArr xs) = (xs \<noteq> [])"
| "truthy (JObj kvs) = (kvs \<noteq> [])"

subsection \<open>Task client\<close>

text \<open>
  What one POST gives: \<open>Raised\<close> when \<^verbatim>\<open>session.post\<close> or \<^verbatim>\<open>resp.json()\<close> raises (timeout,
  connection failure, a body that is not JSON), \<open>Body\<close> with the parsed value otherwise.
\<close>

datatype response = Raised | Body json

text \<open>
  The body of the \<^verbatim>\<open>try\<close> of \<^verbatim>\<open>fetch_task\<close> once the response is parsed. The file
  \<^verbatim>\<open>expired_tokens.txt\<close> is the list of the lines appended to it; the append is taken to
  succeed. The result is \<^verbatim>\<open>(task_data, ok, rate_limit)\<close> and the file.
\<close>

definition fetch_body ::
  "string \<Rightarrow> json \<Rightarrow> string list \<Rightarrow> exn + ((json \<times> bool \<times> bool) \<times> string list)" where
  "fetch_body token data sink =
     (case py_get data ''error'' JNull of
        Inl e \<Rightarrow> Inl e
      | Inr err \<Rightarrow>
          if eq_str err ''jwt auth err'' then Inr ((JNull, False, False), sink @ [token])
          else (case py_get data ''code'' JNull of
                  Inl e \<Rightarrow> Inl e
                | Inr code \<Rightarrow>
                    if eq_int code (- 429) then Inr ((JNull, False, True), sink)
                    else if eq_int code 0 then
                      (case py_item data ''data'' of
                         Inl e \<Rightarrow> Inl e
                       | Inr d \<Rightarrow> Inr ((d, True, False), sink))
                    else Inr ((JNull, False, False), sink)))"

text \<open>\<^verbatim>\<open>fetch_task(session, token)\<close>: every exception gives \<^verbatim>\<open>(None, False, False)\<close>.\<close>

definition fetch_task ::
  "string \<Rightarrow> response \<Rightarrow> string list \<Rightarrow> (json \<times> bool \<times> bool) \<times> string list" where
  "fetch_task token resp sink =
     (case resp of
        Raised \<Rightarrow> ((JNull, False, False), sink)
      | Body data \<Rightarrow>
          (case fetch_body token data sink of
             Inl e \<Rightarrow> ((JNull, False, False), sink)
           | Inr r \<Rightarrow> r))"

text \<open>
  The body of the \<^verbatim>\<open>try\<close> of \<^verbatim>\<open>submit_results\<close> once the response is parsed; the result is
  \<^verbatim>\<open>(submitted, rate_limit)\<close>. The line that reads \<^verbatim>\<open>loops\<close> comes first and raises when
  the response or its \<^verbatim>\<open>data\<close> member is not an object.
\<close>

definition submit_body :: "json \<Rightarrow> exn + (bool \<times> bool)" where
  "submit_body data =
     (case py_get data ''data'' (JObj []) of
        Inl e \<Rightarrow> Inl e
      | Inr d \<Rightarrow>
          (case py_get d ''loops'' (JInt 0) of
             Inl e \<Rightarrow> Inl e
           | Inr loops \<Rightarrow>
               (case py_get data ''code'' JNull of
                  Inl e \<Rightarrow> Inl e
                | Inr code \<Rightarrow>
                    if eq_int code (- 429) then Inr (False, True)
                    else if eq_int code 0 then
                      (case py_get d ''calc_status'' (JBool False) of
                         Inl e \<Rightarrow> Inl e
                       | Inr calc_status \<Rightarrow>
                           if truthy calc_status then Inr (True, False) else Inr (False, False))
                    else Inr (False, False))))"

text \<open>
  \<^verbatim>\<open>submit_results(session, token, r1, r2, task_id)\<close>, as a function of the response; the
  payload is what the worker loop records in its trace.
\<close>

definition submit_results :: "response \<Rightarrow> bool \<times> bool" where
  "submit_results resp =
     (case resp of
        Raised \<Rightarrow> (False, False)
      | Body data \<Rightarrow> (case submit_body data of Inl e \<Rightarrow> (False, False) | Inr r \<Rightarrow> r))"

subsection \<open>Compute pipeline\<close>

text \<open>
  The call \<^verbatim>\<open>generate_matrix(seed, size)\<close> on the values of the task. \<^verbatim>\<open>np.empty\<close> takes an
  integer size only (not a bool); with a size of 0 the loops never touch the seed; the
  arithmetic takes an integer or a bool (0 or 1) and raises on every other value.
\<close>

fun generate_dyn :: "json \<Rightarrow> json \<Rightarrow> exn + matrix" where
  "generate_dyn seed (JInt n) =
     (if n < 0 then Inl ValueError
      else if n = 0 then generate_matrix 0 0
      else (case seed of
              JInt s \<Rightarrow> generate_matrix s n
            | JBool b \<Rightarrow> generate_matrix (if b then 1 else 0) n
            | _ \<Rightarrow> Inl TypeError))"
| "generate_dyn seed _ = Inl TypeError"

text \<open>
  The body of the \<^verbatim>\<open>try\<close> of \<^verbatim>\<open>process_task\<close> up to \<^verbatim>\<open>f = await compute_hash_mod(C)\<close>:
  the two matrices, their product and its fingerprint under the default modulus \<^verbatim>\<open>10**7\<close>.
\<close>

definition task_fingerprint :: "sha256 \<Rightarrow> json \<Rightarrow> json \<Rightarrow> json \<Rightarrow> exn + int" where
  "task_fingerprint sha seed1 seed2 sz =
     (case generate_dyn seed1 sz of
        Inl e \<Rightarrow> Inl e
      | Inr A \<Rightarrow>
     (case generate_dyn seed2 sz of
        Inl e \<Rightarrow> Inl e
      | Inr B \<Rightarrow>
     (case multiply_matrices A B of
        Inl e \<Rightarrow> Inl e
      | Inr C \<Rightarrow> compute_hash_mod sha C 10000000)))"

text \<open>
  The whole body of the \<^verbatim>\<open>try\<close>; \<open>t0\<close> and \<open>t1\<close> are the two readings
  \<^verbatim>\<open>time.time() * 1000\<close>. The division \<^verbatim>\<open>t0 / f\<close> of a float by the integer 0 raises
  ZeroDivisionError.
\<close>

definition compute ::
  "sha256 \<Rightarrow> real \<Rightarrow> real \<Rightarrow> json \<Rightarrow> json \<Rightarrow> json \<Rightarrow> exn + (real \<times> real \<times> real)" where
  "compute sha t0 t1 seed1 seed2 sz =
     (case task_fingerprint sha seed1 seed2 sz of
        Inl e \<Rightarrow> Inl e
      | Inr f \<Rightarrow>
          if f = 0 then Inl ZeroDivisionError
          else
            (let r1 = t0 / real_of_int f;
                 r2 = (if t1 - t0 \<noteq> 0 then real_of_int f / (t1 - t0) else 0)
             in Inr (r1, r2, (t1 - t0) / 1000)))"

text \<open>
  \<^verbatim>\<open>process_task(token, task_data)\<close>. The three subscripts stand before the \<^verbatim>\<open>try\<close>: their
  exception leaves the function (\<open>Inl\<close>). An exception inside the \<^verbatim>\<open>try\<close> gives \<^verbatim>\<open>None\<close>.
\<close>

definition process_task ::
  "sha256 \<Rightarrow> real \<Rightarrow> real \<Rightarrow> json \<Rightarrow> exn + (real \<times> real \<times> real) option" where
  "process_task sha t0 t1 task_data =
     (case py_item task_data ''seed1'' of
        Inl e \<Rightarrow> Inl e
      | Inr seed1 \<Rightarrow>
     (case py_item task_data ''seed2'' of
        Inl e \<Rightarrow> Inl e
      | Inr seed2 \<Rightarrow>
     (case py_item task_data ''matrix_size'' of
        Inl e \<Rightarrow> Inl e
      | Inr sz \<Rightarrow>
          (case compute sha t0 t1 seed1 seed2 sz of
             Inl e \<Rightarrow> Inr None
           | Inr r \<Rightarrow> Inr (Some r)))))"

subsection \<open>Worker loop\<close>

text \<open>
  The state of one worker: its four counters, the file \<^verbatim>\<open>expired_tokens.txt\<close>, and the trace
  of what it has done so far. An action records a POST of \<^verbatim>\<open>fetch_task\<close>, a sleep with its
  seconds, a call of \<^verbatim>\<open>process_task\<close> with its result, and a POST of \<^verbatim>\<open>submit_results\<close>
  with its payload and its result.
\<close>

datatype action =
    Fetch
  | Sleep real
  | Compute json "exn + (real \<times> real \<times> real) option"
  | Submit real real json "bool \<times> bool"

record wstate =
  success :: nat
  fail :: nat
  total :: nat
  total_time :: real
  sink :: "string list"
  trace :: "action list"

definition log :: "action list \<Rightarrow> wstate \<Rightarrow> wstate" where
  "log acts st = st\<lparr>trace := trace st @ acts\<rparr>"

text \<open>
  The environment of a run is three scripts: the responses to the fetches, the pairs
  \<open>(t0, t1)\<close> of clock readings of the calls of \<^verbatim>\<open>process_task\<close>, and the responses to the
  submits, each in the order of use. One pass through the body of \<^verbatim>\<open>while True\<close> ends in
  \<^verbatim>\<open>continue\<close> (or the end of the body), in \<^verbatim>\<open>break\<close>, in an exception nothing catches, or
  at a point where a script has nothing left.
\<close>

datatype step =
    Continue "(real \<times> real) list" "response list" wstate
  | Break wstate
  | Uncaught exn wstate
  | Await wstate

definition loop_body ::
  "sha256 \<Rightarrow> string \<Rightarrow> response \<Rightarrow> (real \<times> real) list \<Rightarrow> response list \<Rightarrow> wstate \<Rightarrow> step" where
  "loop_body sha token resp clocks submits st =
     (case fetch_task token resp (sink st) of
        ((task_data, ok, rate_limit), sink') \<Rightarrow>
          let st1 = log [Fetch] (st\<lparr>sink := sink'\<rparr>) in
          if rate_limit then Continue clocks submits (log [Sleep 3] st1)
          else if \<not> ok then Break st1
          else
            (case clocks of
               [] \<Rightarrow> Await st1
             | (t0, t1) # clocks' \<Rightarrow>
                 (case process_task sha t0 t1 task_data of
                    Inl e \<Rightarrow> Uncaught e (log [Compute task_data (Inl e)] st1)
                  | Inr None \<Rightarrow>
                      Continue clocks' submits
                        (log [Compute task_data (Inr None)] (st1\<lparr>fail := fail st1 + 1\<rparr>))
                  | Inr (Some (r1, r2, dur)) \<Rightarrow>
                      let st2 = log [Compute task_data (Inr (Some (r1, r2, dur)))]
                                  (st1\<lparr>total := total st1 + 1,
                                       total_time := total_time st1 + dur\<rparr>)
                      in (case py_item task_data ''task_id'' of
                            Inl e \<Rightarrow> Uncaught e st2
                          | Inr task_id \<Rightarrow>
                              (case submits of
                                 [] \<Rightarrow> Await st2
                               | sresp # submits' \<Rightarrow>
                                   (case submit_results sresp of
                                      (submitted, rate_limit2) \<Rightarrow>
                                        let st3 = log [Submit r1 r2 task_id (submitted, rate_limit2)] st2
                                        in if rate_limit2
                                           then Continue clocks' submits' (log [Sleep 3] st3)
                                           else Continue clocks' submits'
                                                  (log [Sleep (1 / 20)]
                                                     (if submitted
                                                      then st3\<lparr>success := success st3 + 1\<rparr>
                                                      else st3\<lparr>fail := fail st3 + 1\<rparr>))))))))"

text \<open>
  \<^verbatim>\<open>worker_loop(token)\<close> from a state on: \<open>Stopped\<close> when the loop has left through
  \<^verbatim>\<open>break\<close>, \<open>Crashed\<close> when an exception has left the function, \<open>Running\<close> when the scripts
  end before the loop does.
\<close>

datatype outcome = Stopped wstate | Crashed exn wstate | Running wstate

fun worker_loop ::
  "sha256 \<Rightarrow> string \<Rightarrow> response list \<Rightarrow> (real \<times> real) list \<Rightarrow> response list \<Rightarrow> wstate
     \<Rightarrow> outcome" where
  "worker_loop sha token [] clocks submits st = Running st"
| "worker_loop sha token (resp # fetches) clocks submits st =
     (case loop_body sha token resp clocks submits st of
        Continue clocks' submits' st' \<Rightarrow> worker_loop sha token fetches clocks' submits' st'
      | Break st' \<Rightarrow> Stopped st'
      | Uncaught e st' \<Rightarrow> Crashed e st'
      | Await st' \<Rightarrow> Running st')"

text \<open>The state \<^verbatim>\<open>success = fail = total = 0\<close>, \<^verbatim>\<open>total_time = 0.0\<close> the worker starts in.\<close>

definition start :: "string list \<Rightarrow> wstate" where
  "start file = \<lparr>success = 0, fail = 0, total = 0, total_time = 0, sink = file, trace = []\<rparr>"

definition final :: "outcome \<Rightarrow> wstate" where
  "final out = (case out of Stopped st \<Rightarrow> st | Crashed e st \<Rightarrow> st | Running st \<Rightarrow> st)"

subsection \<open>The outcomes the specification names\<close>

text \<open>
  The classification of a fetch response in the words of the specification:
  \<open>error == "jwt auth err"\<close> is AuthExpired, \<open>code == -429\<close> is RateLimited, \<open>code == 0\<close> is
  Success with the \<open>data\<close> object as the task, anything else and every network or protocol
  error is GenericFailure.
\<close>

datatype fetch_outcome = AuthExpired | RateLimited | Success json | GenericFailure

definition member :: "json \<Rightarrow> string \<Rightarrow> json option" where
  "member v k = (case v of JObj kvs \<Rightarrow> map_of kvs k | _ \<Rightarrow> None)"

definition is_object :: "json \<Rightarrow> bool" where
  "is_object v = (case v of JObj kvs \<Rightarrow> True | _ \<Rightarrow> False)"

definition classify_fetch :: "response \<Rightarrow> fetch_outcome" where
  "classify_fetch resp =
     (case resp of
        Raised \<Rightarrow> GenericFailure
      | Body data \<Rightarrow>
          if \<not> is_object data then GenericFailure
          else if member data ''error'' = Some (JStr ''jwt auth err'') then AuthExpired
          else (case member data ''code'' of
                  None \<Rightarrow> GenericFailure
                | Some code \<Rightarrow>
                    if eq_int code (- 429) then RateLimited
                    else if eq_int code 0 then
                      (case member data ''data'' of
                         None \<Rightarrow> GenericFailure
                       | Some d \<Rightarrow> Success d)
                    else GenericFailure))"

text \<open>
  Two conditions on a submit response. \<open>submit_code_limited\<close> is the \<open>code == -429\<close> of
  the specification. \<open>submit_data_readable\<close> says that the line reading \<^verbatim>\<open>loops\<close>, which
  stands before the test of the code, does not raise: the response is an object and its
  \<open>data\<close> member is absent or an object.
\<close>

definition submit_code_limited :: "response \<Rightarrow> bool" where
  "submit_code_limited resp =
     (case resp of
        Raised \<Rightarrow> False
      | Body data \<Rightarrow>
          (case member data ''code'' of None \<Rightarrow> False | Some code \<Rightarrow> eq_int code (- 429)))"

definition submit_data_readable :: "response \<Rightarrow> bool" where
  "submit_data_readable resp =
     (case resp of
        Raised \<Rightarrow> False
      | Body data \<Rightarrow>
          is_object data
          \<and> (case member data ''data'' of None \<Rightarrow> True | Some d \<Rightarrow> is_object d))"

text \<open>
  The decimal text of an integer read back: an optional minus sign and digits.
\<close>

definition digit_val :: "char \<Rightarrow> nat" where
  "digit_val c = of_char c - 48"

definition nat_of_digits :: "string \<Rightarrow> nat" where
  "nat_of_digits ds = foldl (\<lambda>acc c. 10 * acc + digit_val c) 0 ds"

definition int_of_text :: "string \<Rightarrow> int" where
  "int_of_text s =
     (case s of
        [] \<Rightarrow> 0
      | c # ds \<Rightarrow> if c = CHR ''-'' then - int (nat_of_digits ds) else int (nat_of_digits s))"






text \<open>
  The worked examples need a digest function; they take the length of the string as its
  digest. The theorems hold for every digest function.
\<close>

definition example_sha :: sha256 where
  "example_sha s = word_of_nat (length s)"

text \<open>
  The task of the end-to-end scenario of the specification, a second task, and the
  responses that carry them.
\<close>

definition task1 :: json where
  "task1 = JObj [(''seed1'', JInt 1), (''seed2'', JInt 2), (''matrix_size'', JInt 2),
                 (''task_id'', JStr ''t1'')]"


definition task_response :: "json \<Rightarrow> response" where
  "task_response task = Body (JObj [(''code'', JInt 0), (''data'', task)])"


definition accepted_response :: response where
  "accepted_response =
     Body (JObj [(''code'', JInt 0),
                 (''data'', JObj [(''calc_status'', JBool True), (''loops'', JInt 5)])])"

definition expired_response :: response where
  "expired_response = Body (JObj [(''error'', JStr ''jwt auth err'')])"


subsection \<open>Matrix engine: the recurrence chains over the whole matrix\<close>

lemma gen_row_Suc:
  "gen_row (Suc n) s =
     (real_of_int (lcg_next s) # fst (gen_row n (lcg_next s)), snd (gen_row n (lcg_next s)))"
  by (simp add: Let_def split_beta)

lemma gen_rows_Suc:
  "gen_rows (Suc m) sz s = fst (gen_row sz s) # gen_rows m sz (snd (gen_row sz s))"
  by (simp add: split_beta)

lemma gen_row_length: "length (fst (gen_row n s)) = n"
  by (induction n arbitrary: s) (simp_all add: gen_row_Suc del: gen_row.simps(2))

lemma gen_row_seed: "snd (gen_row n s) = (lcg_next ^^ n) s"
proof (induction n arbitrary: s)
  case 0
  show ?case by simp
next
  case (Suc n)
  have "snd (gen_row (Suc n) s) = snd (gen_row n (lcg_next s))"
    by (simp add: gen_row_Suc del: gen_row.simps(2))
  also have "\<dots> = (lcg_next ^^ n) (lcg_next s)"
    by (rule Suc.IH)
  also have "\<dots> = (lcg_next ^^ Suc n) s"
    by (simp add: funpow_swap1)
  finally show ?case .
qed

lemma gen_row_nth:
  "k < n \<Longrightarrow> fst (gen_row n s) ! k = real_of_int ((lcg_next ^^ Suc k) s)"
proof (induction n arbitrary: s k)
  case 0
  then show ?case by simp
next
  case (Suc n)
  show ?case
  proof (cases k)
    case 0
    then show ?thesis by (simp add: gen_row_Suc del: gen_row.simps(2))
  next
    case (Suc j)
    with Suc.prems have "j < n" by simp
    then have "fst (gen_row n (lcg_next s)) ! j
        = real_of_int ((lcg_next ^^ Suc j) (lcg_next s))"
      by (rule Suc.IH)
    then show ?thesis
      using Suc by (simp add: gen_row_Suc funpow_swap1 del: gen_row.simps(2))
  qed
qed

lemma gen_rows_length: "length (gen_rows m sz s) = m"
  by (induction m arbitrary: s) (simp_all add: gen_rows_Suc del: gen_rows.simps(2))

lemma gen_rows_row_length: "row \<in> set (gen_rows m sz s) \<Longrightarrow> length row = sz"
proof (induction m arbitrary: s)
  case 0
  then show ?case by simp
next
  case (Suc m)
  obtain r s' where rs: "gen_row sz s = (r, s')"
    by (cases "gen_row sz s")
  then have "length r = sz"
    using gen_row_length [of sz s] by simp
  with Suc rs show ?case by auto
qed

lemma flat_gen_rows_length: "length (flat (gen_rows m sz s)) = m * sz"
proof (induction m arbitrary: s)
  case 0
  show ?case by (simp add: flat_def)
next
  case (Suc m)
  obtain r s' where rs: "gen_row sz s = (r, s')"
    by (cases "gen_row sz s")
  then have "length r = sz"
    using gen_row_length [of sz s] by simp
  with Suc [of s'] rs show ?case by (simp add: flat_def)
qed

lemma flat_gen_rows_nth:
  "k < m * sz \<Longrightarrow>
   flat (gen_rows m sz s) ! k = real_of_int ((lcg_next ^^ Suc k) s)"
proof (induction m arbitrary: s k)
  case 0
  then show ?case by simp
next
  case (Suc m)
  obtain r s' where rs: "gen_row sz s = (r, s')"
    by (cases "gen_row sz s")
  have len: "length r = sz"
    using gen_row_length [of sz s] rs by simp
  have s': "s' = (lcg_next ^^ sz) s"
    using gen_row_seed [of sz s] rs by simp
  have unfold: "flat (gen_rows (Suc m) sz s) = r @ flat (gen_rows m sz s')"
    using rs by (simp add: flat_def)
  show ?case
  proof (cases "k < sz")
    case True
    then have "r ! k = real_of_int ((lcg_next ^^ Suc k) s)"
      using gen_row_nth [of k sz s] rs by simp
    with True len unfold show ?thesis by (simp add: nth_append)
  next
    case False
    with Suc.prems have "k - sz < m * sz" by simp
    then have "flat (gen_rows m sz s') ! (k - sz)
        = real_of_int ((lcg_next ^^ Suc (k - sz)) s')"
      by (rule Suc.IH)
    moreover have "(lcg_next ^^ Suc (k - sz)) s' = (lcg_next ^^ Suc k) s"
    proof -
      have "(lcg_next ^^ Suc (k - sz)) ((lcg_next ^^ sz) s)
          = (lcg_next ^^ (Suc (k - sz) + sz)) s"
        by (simp only: funpow_add o_apply)
      moreover have "Suc (k - sz) + sz = Suc k"
        using False by simp
      ultimately show ?thesis using s' by simp
    qed
    ultimately show ?thesis
      using False len unfold by (simp add: nth_append)
  qed
qed

lemma lcg_next_range: "0 \<le> lcg_next s \<and> lcg_next s < 1000"
  by (simp add: lcg_next_def)

lemma gen_row_range:
  "x \<in> set (fst (gen_row n s)) \<Longrightarrow> x \<in> \<int> \<and> 0 \<le> x \<and> x < 1000"
proof (induction n arbitrary: s)
  case 0
  then show ?case by simp
next
  case (Suc n)
  obtain r s' where rs: "gen_row n (lcg_next s) = (r, s')"
    by (cases "gen_row n (lcg_next s)")
  from Suc.prems rs have "x = real_of_int (lcg_next s) \<or> x \<in> set r"
    by (simp add: Let_def)
  then show ?case
  proof
    assume "x = real_of_int (lcg_next s)"
    then show ?thesis using lcg_next_range [of s] by simp
  next
    assume "x \<in> set r"
    then have "x \<in> set (fst (gen_row n (lcg_next s)))" using rs by simp
    then show ?thesis by (rule Suc.IH)
  qed
qed

lemma gen_rows_range:
  "row \<in> set (gen_rows m sz s) \<Longrightarrow> x \<in> set row \<Longrightarrow> x \<in> \<int> \<and> 0 \<le> x \<and> x < 1000"
proof (induction m arbitrary: s)
  case 0
  then show ?case by simp
next
  case (Suc m)
  obtain r s' where rs: "gen_row sz s = (r, s')"
    by (cases "gen_row sz s")
  from Suc.prems(1) rs have "row = r \<or> row \<in> set (gen_rows m sz s')"
    by simp
  then show ?case
  proof
    assume "row = r"
    with Suc.prems(2) rs have "x \<in> set (fst (gen_row sz s))" by simp
    then show ?thesis by (rule gen_row_range)
  next
    assume "row \<in> set (gen_rows m sz s')"
    then show ?thesis using Suc.prems(2) by (rule Suc.IH)
  qed
qed

lemma gen_rows_nth_nth:
  "i < m \<Longrightarrow> j < sz \<Longrightarrow>
   gen_rows m sz s ! i ! j = real_of_int ((lcg_next ^^ Suc (i * sz + j)) s)"
proof (induction m arbitrary: s i)
  case 0
  then show ?case by simp
next
  case (Suc m)
  show ?case
  proof (cases i)
    case 0
    with Suc.prems show ?thesis
      by (simp add: gen_rows_Suc gen_row_nth del: gen_rows.simps(2) funpow.simps)
  next
    case (Suc i')
    with Suc.prems have "i' < m" by simp
    then have "gen_rows m sz (snd (gen_row sz s)) ! i' ! j
        = real_of_int ((lcg_next ^^ Suc (i' * sz + j)) (snd (gen_row sz s)))"
      using Suc.prems(2) by (rule Suc.IH)
    also have "(lcg_next ^^ Suc (i' * sz + j)) (snd (gen_row sz s))
        = (lcg_next ^^ (Suc (i' * sz + j) + sz)) s"
      by (simp only: gen_row_seed funpow_add o_apply)
    also have "Suc (i' * sz + j) + sz = Suc (i * sz + j)"
      using Suc by simp
    finally show ?thesis
      using Suc by (simp add: gen_rows_Suc del: gen_rows.simps(2) funpow.simps)
  qed
qed

lemma lcg_next_step: "lcg_next = (\<lambda>x. (20253141037 * x + 10324135202) mod 1000)"
  by (simp add: fun_eq_iff lcg_next_def lcg_a_def lcg_b_def)

text \<open>
  C2. For every integer seed and every size of at least 1, \<open>generate_matrix\<close> returns a
  matrix of \<open>size\<close> rows of \<open>size\<close> cells whose \<open>k\<close>-th entry in row-major order (from 0)
  is the \<open>(k + 1)\<close>-th iterate of \<open>x \<mapsto> (a * x + b) mod 1000\<close> from the seed, with
  \<open>a = 0x4b72e682d = 20253141037\<close> and \<open>b = 0x2675dcd22 = 10324135202\<close>: each cell feeds the
  next, across the row boundaries. The cell in row \<open>i\<close> and column \<open>j\<close> is entry
  \<open>i * size + j\<close> of that order.
\<close>

theorem generate_matrix_chain:
  "1 \<le> sz \<Longrightarrow>
   \<exists>M. generate_matrix seed sz = Inr M
     \<and> length M = nat sz
     \<and> list_all (\<lambda>row. length row = nat sz) M
     \<and> length (flat M) = nat sz * nat sz
     \<and> (\<forall>k. k < nat sz * nat sz \<longrightarrow>
            flat M ! k =
              real_of_int (((\<lambda>x. (20253141037 * x + 10324135202) mod 1000) ^^ (k + 1)) seed))
     \<and> (\<forall>i j. i < nat sz \<and> j < nat sz \<longrightarrow>
            M ! i ! j = flat M ! (i * nat sz + j))"
proof -
  assume "1 \<le> sz"
  define n where "n = nat sz"
  define M where "M = gen_rows n n seed"
  have gen: "generate_matrix seed sz = Inr M"
    using \<open>1 \<le> sz\<close> by (simp add: generate_matrix_def M_def n_def)
  have len: "length M = n"
    by (simp add: M_def gen_rows_length)
  have rows: "list_all (\<lambda>row. length row = n) M"
    by (simp add: M_def list_all_iff gen_rows_row_length)
  have flen: "length (flat M) = n * n"
    by (simp add: M_def flat_gen_rows_length)
  have chain: "\<forall>k. k < n * n \<longrightarrow> flat M ! k = real_of_int ((lcg_next ^^ (k + 1)) seed)"
    using flat_gen_rows_nth [of _ n n seed] by (simp add: M_def)
  have cell: "\<forall>i j. i < n \<and> j < n \<longrightarrow> M ! i ! j = flat M ! (i * n + j)"
  proof (intro allI impI)
    fix i j
    assume ij: "i < n \<and> j < n"
    then have "i * n + j < n * n"
    proof -
      from ij have "i * n + j < i * n + n" by simp
      also have "\<dots> = Suc i * n" by simp
      also from ij have "\<dots> \<le> n * n" by (metis Suc_leI mult_le_mono1)
      finally show ?thesis .
    qed
    then have "flat M ! (i * n + j) = real_of_int ((lcg_next ^^ Suc (i * n + j)) seed)"
      using flat_gen_rows_nth [of "i * n + j" n n seed] by (simp add: M_def)
    moreover have "M ! i ! j = real_of_int ((lcg_next ^^ Suc (i * n + j)) seed)"
      using ij gen_rows_nth_nth [of i n j n seed] by (simp add: M_def)
    ultimately show "M ! i ! j = flat M ! (i * n + j)" by simp
  qed
  from chain have chain_step: "\<forall>k. k < n * n \<longrightarrow>
      flat M ! k = real_of_int (((\<lambda>x. (20253141037 * x + 10324135202) mod 1000) ^^ (k + 1)) seed)"
    unfolding lcg_next_step .
  from gen len rows flen chain_step cell show ?thesis
    unfolding n_def by blast
qed

theorem generate_matrix_chain_witness:
  "(1::int) \<le> 2
   \<and> generate_matrix 1 2 = Inr [[239, 45], [867, 281]]
   \<and> (\<exists>M. generate_matrix 1 2 = Inr M
        \<and> flat M = [239, 45, 867, 281]
        \<and> (\<forall>k. k < nat 2 * nat 2 \<longrightarrow>
              flat M ! k =
                real_of_int (((\<lambda>x. (20253141037 * x + 10324135202) mod 1000) ^^ (k + 1)) 1)))
   \<and> (20253141037 * 1 + 10324135202) mod 1000 = (239::int)
   \<and> (20253141037 * 239 + 10324135202) mod 1000 = (45::int)
   \<and> (20253141037 * 45 + 10324135202) mod 1000 = (867::int)
   \<and> (20253141037 * 867 + 10324135202) mod 1000 = (281::int)"
proof -
  have gen: "generate_matrix 1 2 = Inr [[239, 45], [867, 281]]"
    by code_simp
  from generate_matrix_chain [of 2 1] obtain M
    where M: "generate_matrix 1 2 = Inr M"
      and chain: "\<forall>k. k < nat 2 * nat 2 \<longrightarrow>
        flat M ! k = real_of_int (((\<lambda>x. (20253141037 * x + 10324135202) mod 1000) ^^ (k + 1)) 1)"
    by auto
  from M gen have "M = [[239, 45], [867, 281]]"
    by simp
  then have "flat M = [239, 45, 867, 281]"
    by (simp add: flat_def)
  with M chain have ex: "\<exists>M. generate_matrix 1 2 = Inr M
        \<and> flat M = [239, 45, 867, 281]
        \<and> (\<forall>k. k < nat 2 * nat 2 \<longrightarrow>
              flat M ! k =
                real_of_int (((\<lambda>x. (20253141037 * x + 10324135202) mod 1000) ^^ (k + 1)) 1))"
    by blast
  have le: "(1::int) \<le> 2"
    by simp
  have s1: "(20253141037 * 1 + 10324135202) mod 1000 = (239::int)"
    by simp
  have s2: "(20253141037 * 239 + 10324135202) mod 1000 = (45::int)"
    by simp
  have s3: "(20253141037 * 45 + 10324135202) mod 1000 = (867::int)"
    by simp
  have s4: "(20253141037 * 867 + 10324135202) mod 1000 = (281::int)"
    by simp
  show ?thesis
    by (intro conjI) (rule le gen ex s1 s2 s3 s4)+
qed

text \<open>
  C5. For every integer seed, also zero or negative, and every size, every entry of the
  matrix \<open>generate_matrix\<close> returns is a whole number in \<open>[0, 1000)\<close>; it returns a matrix
  for every size from 0 on (a negative size raises).
\<close>

theorem generate_matrix_range:
  "(0 \<le> sz \<longrightarrow> (\<exists>M. generate_matrix seed sz = Inr M)) \<and>
   (\<forall>M. generate_matrix seed sz = Inr M \<longrightarrow>
      (\<forall>row \<in> set M. \<forall>x \<in> set row. x \<in> \<int> \<and> 0 \<le> x \<and> x < 1000))"
proof
  show "0 \<le> sz \<longrightarrow> (\<exists>M. generate_matrix seed sz = Inr M)"
    by (simp add: generate_matrix_def)
next
  show "\<forall>M. generate_matrix seed sz = Inr M \<longrightarrow>
      (\<forall>row \<in> set M. \<forall>x \<in> set row. x \<in> \<int> \<and> 0 \<le> x \<and> x < 1000)"
  proof (intro allI impI ballI)
    fix M row x
    assume gen: "generate_matrix seed sz = Inr M" and row: "row \<in> set M" and x: "x \<in> set row"
    from gen have "M = gen_rows (nat sz) (nat sz) seed"
      by (simp add: generate_matrix_def split: if_splits)
    with row have "row \<in> set (gen_rows (nat sz) (nat sz) seed)" by simp
    then show "x \<in> \<int> \<and> 0 \<le> x \<and> x < 1000"
      using x by (rule gen_rows_range)
  qed
qed

theorem generate_matrix_range_witness:
  "generate_matrix (- 7) 3 = Inr [[943, 93, 643], [993, 943, 93], [643, 993, 943]] \<and>
   list_all (list_all (\<lambda>x. x \<in> \<int> \<and> 0 \<le> x \<and> x < 1000))
     [[943, 93, 643], [993, 943, 93], [643, 993, 943 :: real]]"
proof -
  have gen: "generate_matrix (- 7) 3 = Inr [[943, 93, 643], [993, 943, 93], [643, 993, 943]]"
    by code_simp
  from generate_matrix_range [of 3 "- 7"] gen show ?thesis
    by (simp add: list_all_iff)
qed

subsection \<open>Matrix engine: the fingerprint\<close>

lemma round_half_even_nearest: "\<bar>x - real_of_int (round_half_even x)\<bar> \<le> 1 / 2"
proof -
  have "real_of_int \<lfloor>x\<rfloor> \<le> x" and "x < real_of_int \<lfloor>x\<rfloor> + 1"
    by linarith+
  then show ?thesis
    by (auto simp: round_half_even_def Let_def)
qed

lemma round_half_even_of_int: "round_half_even (real_of_int n) = n"
  by (simp add: round_half_even_def)

lemma round_half_even_nonneg: "0 \<le> x \<Longrightarrow> 0 \<le> round_half_even x"
  by (auto simp: round_half_even_def Let_def)

lemma digit_val_digit_char: "d < 10 \<Longrightarrow> digit_val (digit_char d) = d"
  by (simp add: digit_val_def digit_char_def)

lemma digit_char_not_minus: "d < 10 \<Longrightarrow> digit_char d \<noteq> CHR ''-''"
proof
  assume d: "d < 10" and eq: "digit_char d = CHR ''-''"
  then have "of_char (digit_char d) = (of_char (CHR ''-'') :: nat)" by simp
  with d show False by (simp add: digit_char_def)
qed

lemma nat_of_digits_snoc: "nat_of_digits (ds @ [c]) = 10 * nat_of_digits ds + digit_val c"
  by (simp add: nat_of_digits_def)

lemma nat_of_digits_dec_nat: "nat_of_digits (dec_nat n) = n"
proof (induction n rule: dec_nat.induct)
  case (1 n)
  show ?case
  proof (cases "n < 10")
    case True
    then show ?thesis
      by (simp add: dec_nat.simps [of n] nat_of_digits_def digit_val_digit_char)
  next
    case False
    then have "nat_of_digits (dec_nat (n div 10)) = n div 10"
      by (rule "1.IH")
    with False show ?thesis
      by (simp add: dec_nat.simps [of n] nat_of_digits_snoc digit_val_digit_char)
  qed
qed

lemma dec_nat_hd: "\<exists>d ds. d < 10 \<and> dec_nat n = digit_char d # ds"
proof (induction n rule: dec_nat.induct)
  case (1 n)
  show ?case
  proof (cases "n < 10")
    case True
    then show ?thesis
      by (auto simp: dec_nat.simps [of n])
  next
    case False
    then obtain d ds where "d < 10" and "dec_nat (n div 10) = digit_char d # ds"
      using "1.IH" by blast
    with False show ?thesis
      by (auto simp: dec_nat.simps [of n])
  qed
qed

lemma int_of_text_dec_nat: "int_of_text (dec_nat n) = int n"
proof -
  obtain d ds where d: "d < 10" and eq: "dec_nat n = digit_char d # ds"
    using dec_nat_hd by blast
  have "nat_of_digits (digit_char d # ds) = n"
    using nat_of_digits_dec_nat [of n] eq by simp
  with d eq show ?thesis
    by (simp add: int_of_text_def digit_char_not_minus)
qed

lemma int_of_text_format_0f:
  "int_of_text (format_0f x) =
     (if x < 0 then - round_half_even \<bar>x\<bar> else round_half_even \<bar>x\<bar>)"
proof -
  have nn: "0 \<le> round_half_even \<bar>x\<bar>"
    by (rule round_half_even_nonneg) simp
  show ?thesis
  proof (cases "x < 0")
    case True
    then have "format_0f x = CHR ''-'' # dec_nat (nat (round_half_even \<bar>x\<bar>))"
      by (simp add: format_0f_def)
    then show ?thesis
      using True nn by (simp add: int_of_text_def nat_of_digits_dec_nat)
  next
    case False
    then have "format_0f x = dec_nat (nat (round_half_even \<bar>x\<bar>))"
      by (simp add: format_0f_def)
    then show ?thesis
      using False nn by (simp add: int_of_text_dec_nat)
  qed
qed

lemma format_0f_nearest: "\<bar>x - real_of_int (int_of_text (format_0f x))\<bar> \<le> 1 / 2"
proof -
  define r where "r = round_half_even \<bar>x\<bar>"
  have near: "\<bar>\<bar>x\<bar> - real_of_int r\<bar> \<le> 1 / 2"
    unfolding r_def by (rule round_half_even_nearest)
  show ?thesis
  proof (cases "x < 0")
    case True
    then have "int_of_text (format_0f x) = - r"
      by (simp add: int_of_text_format_0f r_def)
    moreover have "x - real_of_int (- r) = - (\<bar>x\<bar> - real_of_int r)"
      using True by simp
    then have "\<bar>x - real_of_int (- r)\<bar> = \<bar>\<bar>x\<bar> - real_of_int r\<bar>"
      by (simp only: abs_minus)
    with near have "\<bar>x - real_of_int (- r)\<bar> \<le> 1 / 2"
      by simp
    ultimately show ?thesis by simp
  next
    case False
    then have "int_of_text (format_0f x) = r"
      by (simp add: int_of_text_format_0f r_def)
    moreover from False near have "\<bar>x - real_of_int r\<bar> \<le> 1 / 2"
      by simp
    ultimately show ?thesis by simp
  qed
qed

lemma format_0f_whole: "int_of_text (format_0f (real_of_int n)) = n"
proof (cases "n < 0")
  case True
  have "\<bar>real_of_int n\<bar> = real_of_int (- n)"
    using True by simp
  then have "round_half_even \<bar>real_of_int n\<bar> = - n"
    by (simp only: round_half_even_of_int)
  moreover have "real_of_int n < 0"
    using True by simp
  ultimately show ?thesis
    by (simp only: int_of_text_format_0f if_True minus_minus)
next
  case False
  have "\<bar>real_of_int n\<bar> = real_of_int n"
    using False by simp
  then have "round_half_even \<bar>real_of_int n\<bar> = n"
    by (simp only: round_half_even_of_int)
  moreover have "\<not> real_of_int n < 0"
    using False by simp
  ultimately show ?thesis
    by (simp only: int_of_text_format_0f if_False)
qed

text \<open>
  C3. For every matrix and every modulus \<open>m > 0\<close>, \<open>compute_hash_mod\<close> returns the SHA-256
  digest of the concatenation, in row-major order and with no separator, of the text
  \<open>format_0f\<close> gives each entry, read as an unsigned integer and reduced modulo \<open>m\<close>; the
  result lies in \<open>[0, m)\<close>. The text of an entry is the decimal text of an integer at
  distance at most one half from it (\<open>format_0f_whole\<close>: of the entry itself when it is
  whole; a tie goes to the even neighbour by \<open>round_half_even\<close>).
\<close>

theorem compute_hash_mod_fingerprint:
  "0 < m \<Longrightarrow>
   (\<exists>f. compute_hash_mod sha M m = Inr f
      \<and> f = uint (sha (concat (map format_0f (concat M)))) mod m
      \<and> 0 \<le> f \<and> f < m)
   \<and> list_all (\<lambda>x. \<bar>x - real_of_int (int_of_text (format_0f x))\<bar> \<le> 1 / 2) (concat M)"
proof -
  assume m: "0 < m"
  define f where "f = uint (sha (concat (map format_0f (concat M)))) mod m"
  have "compute_hash_mod sha M m = Inr f"
    using m by (simp add: compute_hash_mod_def flatten_matrix_def flat_def f_def)
  moreover have "0 \<le> f \<and> f < m"
    using m by (simp add: f_def)
  moreover have "list_all (\<lambda>x. \<bar>x - real_of_int (int_of_text (format_0f x))\<bar> \<le> 1 / 2) (concat M)"
    unfolding list_all_iff using format_0f_nearest by blast
  ultimately show ?thesis
    using f_def by blast
qed


theorem compute_hash_mod_fingerprint_witness:
  "(0::int) < 7 \<and>
   compute_hash_mod (\<lambda>s. word_of_nat (length s)) [[1 / 2, 3 / 2], [- 7, 1234]] 7 = Inr 1 \<and>
   flatten_matrix [[1 / 2, 3 / 2], [- 7, 1234]] = ''02-71234''"
proof -
  have "flatten_matrix [[1 / 2, 3 / 2], [- 7, 1234]] = ''02-71234''"
    by code_simp
  moreover have "uint (word_of_nat (length ''02-71234'') :: 256 word) mod 7 = 1"
    by simp
  ultimately show ?thesis
    using compute_hash_mod_fingerprint [of 7 "\<lambda>s. word_of_nat (length s)" "[[1 / 2, 3 / 2], [- 7, 1234]]"]
    by (simp add: flatten_matrix_def flat_def)
qed

subsection \<open>Compute pipeline: the values returned\<close>

lemma compute_hash_mod_default_range:
  "compute_hash_mod sha C 10000000 = Inr f \<Longrightarrow> 0 \<le> f \<and> f < 10000000"
  by (auto simp: compute_hash_mod_def Let_def)

lemma task_fingerprint_range:
  "task_fingerprint sha seed1 seed2 sz = Inr f \<Longrightarrow> 0 \<le> f \<and> f < 10000000"
  by (auto simp: task_fingerprint_def split: sum.splits dest: compute_hash_mod_default_range)


lemma compute_values:
  "task_fingerprint sha seed1 seed2 sz = Inr f \<Longrightarrow> f \<noteq> 0 \<Longrightarrow>
   compute sha t0 t1 seed1 seed2 sz =
     Inr (t0 / real_of_int f,
          (if t1 = t0 then 0 else real_of_int f / (t1 - t0)),
          (t1 - t0) / 1000)"
  by (simp add: compute_def)

lemma digit_char_eval:
  "digit_char 0 = CHR ''0''" "digit_char 1 = CHR ''1''" "digit_char 2 = CHR ''2''"
  "digit_char 3 = CHR ''3''" "digit_char 4 = CHR ''4''" "digit_char 5 = CHR ''5''"
  "digit_char 6 = CHR ''6''" "digit_char 7 = CHR ''7''" "digit_char 8 = CHR ''8''"
  "digit_char 9 = CHR ''9''" "digit_char (Suc 0) = CHR ''1''"
  by code_simp+

lemma format_0f_numeral: "format_0f (numeral k) = dec_nat (numeral k)"
proof -
  have "round_half_even \<bar>real_of_int (numeral k)\<bar> = numeral k"
    by (simp only: abs_numeral of_int_numeral round_half_even_of_int [of "numeral k", simplified])
  then show ?thesis
    by (simp add: format_0f_def)
qed

lemma flatten_example:
  "flatten_matrix [[89364, 118836], [385412, 483140]] = ''89364118836385412483140''"
  by (simp add: flatten_matrix_def flat_def format_0f_numeral dec_nat.simps digit_char_eval)

lemma multiply_example:
  "multiply_matrices [[239, 45], [867, 281]] [[276, 414], [520, 442]]
     = Inr [[89364, 118836], [385412, 483140]]"
  by (simp add: multiply_matrices_def dot_def column_def ncols_def upt_rec)

lemma generate_example_1: "generate_matrix 1 2 = Inr [[239, 45], [867, 281]]"
  by code_simp

lemma generate_example_2: "generate_matrix 2 2 = Inr [[276, 414], [520, 442]]"
  by code_simp

lemma task_fingerprint_example:
  "task_fingerprint example_sha (JInt 1) (JInt 2) (JInt 2) = Inr 23"
  by (simp add: task_fingerprint_def generate_example_1 generate_example_2 multiply_example
      compute_hash_mod_def flatten_example example_sha_def)


lemma task1_items:
  "py_item task1 ''seed1'' = Inr (JInt 1)"
  "py_item task1 ''seed2'' = Inr (JInt 2)"
  "py_item task1 ''matrix_size'' = Inr (JInt 2)"
  "py_item task1 ''task_id'' = Inr (JStr ''t1'')"
  by (simp_all add: task1_def)



lemma process_task_result:
  assumes "py_item task_data ''seed1'' = Inr seed1"
    and "py_item task_data ''seed2'' = Inr seed2"
    and "py_item task_data ''matrix_size'' = Inr sz"
    and "task_fingerprint sha seed1 seed2 sz = Inr f"
    and "0 < f"
  shows "process_task sha t0 t1 task_data =
     Inr (Some (t0 / real_of_int f,
                (if t1 = t0 then 0 else real_of_int f / (t1 - t0)),
                (t1 - t0) / 1000))"
proof -
  from assms(5) have "f \<noteq> 0" by simp
  with assms(4) have "compute sha t0 t1 seed1 seed2 sz =
     Inr (t0 / real_of_int f,
          (if t1 = t0 then 0 else real_of_int f / (t1 - t0)),
          (t1 - t0) / 1000)"
    by (rule compute_values)
  with assms(1-3) show ?thesis
    by (simp add: process_task_def)
qed

text \<open>
  C4. When the pipeline reaches a fingerprint \<open>f > 0\<close> with the readings \<open>t0\<close> and \<open>t1\<close>,
  \<open>process_task\<close> returns \<open>result_1 = t0 / f\<close>, \<open>result_2 = f / (t1 - t0)\<close> when
  \<open>t1 \<noteq> t0\<close> and \<open>0\<close> when \<open>t1 = t0\<close>, and the elapsed time \<open>(t1 - t0) / 1000\<close>.
\<close>

theorem process_task_values:
  assumes "py_item task_data ''seed1'' = Inr seed1"
    and "py_item task_data ''seed2'' = Inr seed2"
    and "py_item task_data ''matrix_size'' = Inr sz"
    and "task_fingerprint sha seed1 seed2 sz = Inr f"
    and "0 < f"
  shows "process_task sha t0 t1 task_data =
     Inr (Some (t0 / real_of_int f,
                (if t1 = t0 then 0 else real_of_int f / (t1 - t0)),
                (t1 - t0) / 1000))"
  using assms by (rule process_task_result)

theorem process_task_values_witness:
  "process_task example_sha 1000 1004 task1 = Inr (Some (1000 / 23, 23 / 4, 1 / 250))
   \<and> process_task example_sha 1000 1000 task1 = Inr (Some (1000 / 23, 0, 0))"
proof -
  have pos: "(0::int) < 23" by simp
  show ?thesis
    using process_task_values [OF task1_items(1-3) task_fingerprint_example pos, of 1000 1004]
      process_task_values [OF task1_items(1-3) task_fingerprint_example pos, of 1000 1000]
    by simp
qed

subsection \<open>Task client: the code against the outcomes of the specification\<close>

lemma fetch_task_classify:
  "fetch_task token resp snk =
     (case classify_fetch resp of
        AuthExpired \<Rightarrow> ((JNull, False, False), snk @ [token])
      | RateLimited \<Rightarrow> ((JNull, False, True), snk)
      | Success d \<Rightarrow> ((d, True, False), snk)
      | GenericFailure \<Rightarrow> ((JNull, False, False), snk))"
proof (cases resp)
  case Raised
  then show ?thesis by (simp add: fetch_task_def classify_fetch_def)
next
  case (Body data)
  show ?thesis
  proof (cases data)
    case (JObj kvs)
    show ?thesis
    proof (cases "map_of kvs ''error''")
      case None
      with Body JObj show ?thesis
        by (simp add: fetch_task_def fetch_body_def classify_fetch_def member_def is_object_def
            split: option.splits)
    next
      case (Some err)
      with Body JObj show ?thesis
        by (cases err)
          (simp_all add: fetch_task_def fetch_body_def classify_fetch_def member_def
            is_object_def split: option.splits)
    qed
  qed (simp_all add: Body fetch_task_def fetch_body_def classify_fetch_def is_object_def)
qed

lemma classify_fetch_expired:
  "member data ''error'' = Some (JStr ''jwt auth err'') \<Longrightarrow>
   classify_fetch (Body data) = AuthExpired"
  by (cases data) (simp_all add: classify_fetch_def member_def is_object_def)

lemma classify_fetch_raised: "classify_fetch Raised = GenericFailure"
  by (simp add: classify_fetch_def)

lemma classify_fetch_not_object:
  "\<not> is_object data \<Longrightarrow> classify_fetch (Body data) = GenericFailure"
  by (simp add: classify_fetch_def)

lemma submit_results_raised: "submit_results Raised = (False, False)"
  by (simp add: submit_results_def)

lemma submit_results_not_object:
  "\<not> is_object data \<Longrightarrow> submit_results (Body data) = (False, False)"
  by (cases data) (simp_all add: submit_results_def submit_body_def is_object_def)


lemma submit_results_limited_only:
  "submit_results resp = (submitted, True) \<Longrightarrow>
   submit_code_limited resp \<and> submit_data_readable resp \<and> \<not> submitted"
proof (cases resp)
  case Raised
  assume "submit_results resp = (submitted, True)"
  with Raised show ?thesis by (simp add: submit_results_def)
next
  case (Body data)
  assume rl: "submit_results resp = (submitted, True)"
  show ?thesis
  proof (cases data)
    case (JObj kvs)
    show ?thesis
    proof (cases "map_of kvs ''data''")
      case None
      with rl Body JObj show ?thesis
        by (auto simp: submit_code_limited_def submit_data_readable_def submit_results_def
            submit_body_def member_def is_object_def split: option.splits if_splits)
    next
      case (Some d)
      with rl Body JObj show ?thesis
        by (cases d)
          (auto simp: submit_code_limited_def submit_data_readable_def submit_results_def
            submit_body_def member_def is_object_def split: option.splits if_splits)
    qed
  qed (use rl Body in \<open>simp_all add: submit_results_def submit_body_def\<close>)
qed

text \<open>
  A response whose \<^verbatim>\<open>loops\<close> cannot be read is a failed submit whatever its code, also with
  \<open>code == -429\<close>: the exception comes before the test of the code.
\<close>

lemma submit_results_unreadable:
  "\<not> submit_data_readable resp \<Longrightarrow> submit_results resp = (False, False)"
proof (cases resp)
  case Raised
  then show ?thesis by (simp add: submit_results_def)
next
  case (Body data)
  assume nr: "\<not> submit_data_readable resp"
  show ?thesis
  proof (cases data)
    case (JObj kvs)
    with nr Body obtain d where d: "map_of kvs ''data'' = Some d" and "\<not> is_object d"
      by (auto simp: submit_data_readable_def member_def is_object_def split: option.splits)
    then show ?thesis
      using Body JObj
      by (cases d) (simp_all add: submit_results_def submit_body_def is_object_def)
  qed (simp_all add: Body submit_results_def submit_body_def)
qed

lemma submit_results_limited_null:
  "submit_code_limited (Body (JObj [(''code'', JInt (- 429)), (''data'', JNull)]))
   \<and> submit_results (Body (JObj [(''code'', JInt (- 429)), (''data'', JNull)])) = (False, False)"
  by (simp add: submit_code_limited_def member_def submit_results_def submit_body_def)

subsection \<open>Worker loop: one pass through the body\<close>


lemma loop_body_expired:
  "classify_fetch resp = AuthExpired \<Longrightarrow>
   loop_body sha token resp clocks submits st =
     Break (st\<lparr>sink := sink st @ [token], trace := trace st @ [Fetch]\<rparr>)"
  by (simp add: loop_body_def fetch_task_classify log_def)

lemma loop_body_generic:
  "classify_fetch resp = GenericFailure \<Longrightarrow>
   loop_body sha token resp clocks submits st = Break (st\<lparr>trace := trace st @ [Fetch]\<rparr>)"
  by (simp add: loop_body_def fetch_task_classify log_def)


lemma loop_body_submitted:
  "classify_fetch resp = Success task_data \<Longrightarrow>
   process_task sha t0 t1 task_data = Inr (Some (r1, r2, dur)) \<Longrightarrow>
   py_item task_data ''task_id'' = Inr task_id \<Longrightarrow>
   submit_results sresp = (submitted, rate_limit) \<Longrightarrow>
   loop_body sha token resp ((t0, t1) # clocks) (sresp # submits) st =
     Continue clocks submits
       (if rate_limit
        then st\<lparr>total := total st + 1, total_time := total_time st + dur,
                 trace := trace st @ [Fetch, Compute task_data (Inr (Some (r1, r2, dur))),
                                      Submit r1 r2 task_id (submitted, rate_limit), Sleep 3]\<rparr>
        else if submitted
        then st\<lparr>success := success st + 1, total := total st + 1,
                 total_time := total_time st + dur,
                 trace := trace st @ [Fetch, Compute task_data (Inr (Some (r1, r2, dur))),
                                      Submit r1 r2 task_id (submitted, rate_limit),
                                      Sleep (1 / 20)]\<rparr>
        else st\<lparr>fail := fail st + 1, total := total st + 1,
                 total_time := total_time st + dur,
                 trace := trace st @ [Fetch, Compute task_data (Inr (Some (r1, r2, dur))),
                                      Submit r1 r2 task_id (submitted, rate_limit),
                                      Sleep (1 / 20)]\<rparr>)"
  by (simp add: loop_body_def fetch_task_classify log_def)


subsection \<open>Worker loop: the claims about single passes\<close>

lemma classify_task_response: "classify_fetch (task_response task) = Success task"
  by (simp add: task_response_def classify_fetch_def member_def is_object_def)


lemma classify_expired_response: "classify_fetch expired_response = AuthExpired"
  by (simp add: expired_response_def classify_fetch_def member_def is_object_def)






text \<open>
  C8. When a fetch response carries \<open>error == "jwt auth err"\<close>, the worker loop stops at
  that fetch: nothing is computed or submitted after it, whatever responses were still to
  come, and the token is appended once to the file of expired tokens.
\<close>

theorem auth_expiry_stops_worker:
  assumes "member data ''error'' = Some (JStr ''jwt auth err'')"
  shows "worker_loop sha token (Body data # fetches) clocks submits st =
     Stopped (st\<lparr>sink := sink st @ [token], trace := trace st @ [Fetch]\<rparr>)"
proof -
  from assms have "classify_fetch (Body data) = AuthExpired"
    by (rule classify_fetch_expired)
  then show ?thesis by (simp add: loop_body_expired)
qed

theorem auth_expiry_stops_worker_witness:
  "worker_loop example_sha ''tok''
     [Body (JObj [(''error'', JStr ''jwt auth err'')]), task_response task1]
     [(1000, 1004)] [accepted_response] (start [''old''])
   = Stopped \<lparr>success = 0, fail = 0, total = 0, total_time = 0, sink = [''old'', ''tok''],
              trace = [Fetch]\<rparr>"
proof -
  have "member (JObj [(''error'', JStr ''jwt auth err'')]) ''error''
      = Some (JStr ''jwt auth err'')"
    by (simp add: member_def)
  from auth_expiry_stops_worker [OF this] show ?thesis
    by (simp add: start_def)
qed

text \<open>
  C10. \<open>fetch_task\<close> returns \<^verbatim>\<open>(None, False, False)\<close> both on an expired token and on a
  generic failure, and the worker loop stops through the same branch: the two final states
  differ in the file of expired tokens only. The file after a pass of the loop is the file
  \<open>fetch_task\<close> returned: the loop itself never writes it.
\<close>

theorem auth_expiry_like_generic_failure:
  assumes "classify_fetch resp_a = AuthExpired"
    and "classify_fetch resp_g = GenericFailure"
  shows "fst (fetch_task token resp_a snk) = (JNull, False, False)
    \<and> fst (fetch_task token resp_g snk) = (JNull, False, False)
    \<and> snd (fetch_task token resp_a snk) = snk @ [token]
    \<and> snd (fetch_task token resp_g snk) = snk
    \<and> worker_loop sha token (resp_a # fetches) clocks submits st =
        Stopped (st\<lparr>sink := sink st @ [token], trace := trace st @ [Fetch]\<rparr>)
    \<and> worker_loop sha token (resp_g # fetches) clocks submits st =
        Stopped (st\<lparr>trace := trace st @ [Fetch]\<rparr>)
    \<and> sink (final (worker_loop sha token [resp] clocks submits st)) =
        snd (fetch_task token resp (sink st))"
proof -
  have snk_eq: "sink (final (worker_loop sha token [resp] clocks submits st)) =
        snd (fetch_task token resp (sink st))"
    by (simp add: loop_body_def final_def log_def Let_def
        split: prod.splits list.splits sum.splits option.splits)
  from assms snk_eq show ?thesis
    by (simp add: fetch_task_classify loop_body_expired loop_body_generic)
qed

theorem auth_expiry_like_generic_failure_witness:
  "fst (fetch_task ''tok'' expired_response []) = (JNull, False, False)
    \<and> fst (fetch_task ''tok'' Raised []) = (JNull, False, False)
    \<and> snd (fetch_task ''tok'' expired_response []) = [''tok'']
    \<and> snd (fetch_task ''tok'' Raised []) = []
    \<and> worker_loop example_sha ''tok'' [expired_response] [] [] (start []) =
        Stopped \<lparr>success = 0, fail = 0, total = 0, total_time = 0, sink = [''tok''],
                 trace = [Fetch]\<rparr>
    \<and> worker_loop example_sha ''tok'' [Raised] [] [] (start []) =
        Stopped \<lparr>success = 0, fail = 0, total = 0, total_time = 0, sink = [],
                 trace = [Fetch]\<rparr>"
  using auth_expiry_like_generic_failure [OF classify_expired_response classify_fetch_raised,
      of "''tok''" "[]" example_sha "[]" "[]" "[]" "start []"]
  by (simp add: start_def)

subsection \<open>Worker loop: errors, rate limits and counters over whole runs\<close>





lemma process_task_example_1:
  "process_task example_sha 1000 1004 task1 = Inr (Some (1000 / 23, 23 / 4, 1 / 250))"
proof -
  have "(0::int) < 23" by simp
  from process_task_result [OF task1_items(1-3) task_fingerprint_example this, of 1000 1004]
  show ?thesis by simp
qed





lemma worker_loop_failed_submit:
  assumes "classify_fetch resp = Success task_data"
    and "process_task sha t0 t1 task_data = Inr (Some (r1, r2, dur))"
    and "py_item task_data ''task_id'' = Inr task_id"
    and "submit_results sresp = (False, False)"
  shows "worker_loop sha token (resp # fetches) ((t0, t1) # clocks) (sresp # submits) st =
     worker_loop sha token fetches clocks submits
       (st\<lparr>fail := fail st + 1, total := total st + 1, total_time := total_time st + dur,
            trace := trace st @ [Fetch, Compute task_data (Inr (Some (r1, r2, dur))),
                                 Submit r1 r2 task_id (False, False), Sleep (1 / 20)]\<rparr>)"
  using loop_body_submitted [OF assms] by simp

text \<open>
  C7 as stated fails for a fetch: an error raised during a fetch is caught, but the loop
  breaks at \<^verbatim>\<open>if not ok\<close>. The worker stops with no failure counted and never looks at the
  next response.
\<close>

theorem fetch_error_stops_uncounted:
  "worker_loop example_sha ''tok'' [Raised, task_response task1] [(1000, 1004)]
     [accepted_response] (start [])
   = Stopped \<lparr>success = 0, fail = 0, total = 0, total_time = 0, sink = [],
              trace = [Fetch]\<rparr>"
  by (simp add: start_def loop_body_generic [OF classify_fetch_raised])

text \<open>
  C7, amended. Every network or protocol error raised during a fetch or a submit (also the
  one a JSON body that is no object raises) is caught and gives the result of a generic
  failure; the worker does not crash. On a fetch the loop stops, with no counter changed.
  On a submit the failure is counted and the loop goes on with its next pass.
\<close>

theorem network_errors_are_caught:
  "fetch_task token Raised snk = ((JNull, False, False), snk)
   \<and> submit_results Raised = (False, False)
   \<and> worker_loop sha token (Raised # fetches) clocks submits st =
       Stopped (st\<lparr>trace := trace st @ [Fetch]\<rparr>)
   \<and> (classify_fetch resp = Success task_data
        \<and> process_task sha t0 t1 task_data = Inr (Some (r1, r2, dur))
        \<and> py_item task_data ''task_id'' = Inr task_id \<longrightarrow>
       worker_loop sha token (resp # fetches) ((t0, t1) # clocks) (Raised # submits) st =
         worker_loop sha token fetches clocks submits
           (st\<lparr>fail := fail st + 1, total := total st + 1,
                total_time := total_time st + dur,
                trace := trace st @ [Fetch, Compute task_data (Inr (Some (r1, r2, dur))),
                                     Submit r1 r2 task_id (False, False),
                                     Sleep (1 / 20)]\<rparr>))
   \<and> (\<not> is_object data \<longrightarrow>
       fetch_task token (Body data) snk = ((JNull, False, False), snk)
       \<and> submit_results (Body data) = (False, False))"
proof (intro conjI impI)
  show "fetch_task token Raised snk = ((JNull, False, False), snk)"
    by (simp add: fetch_task_def)
  show "submit_results Raised = (False, False)"
    by (rule submit_results_raised)
  show "worker_loop sha token (Raised # fetches) clocks submits st =
       Stopped (st\<lparr>trace := trace st @ [Fetch]\<rparr>)"
    by (simp add: loop_body_generic [OF classify_fetch_raised])
next
  assume h: "classify_fetch resp = Success task_data
        \<and> process_task sha t0 t1 task_data = Inr (Some (r1, r2, dur))
        \<and> py_item task_data ''task_id'' = Inr task_id"
  from h have a: "classify_fetch resp = Success task_data" by simp
  from h have b: "process_task sha t0 t1 task_data = Inr (Some (r1, r2, dur))" by simp
  from h have c: "py_item task_data ''task_id'' = Inr task_id" by simp
  from a b c submit_results_raised
  show "worker_loop sha token (resp # fetches) ((t0, t1) # clocks) (Raised # submits) st =
         worker_loop sha token fetches clocks submits
           (st\<lparr>fail := fail st + 1, total := total st + 1,
                total_time := total_time st + dur,
                trace := trace st @ [Fetch, Compute task_data (Inr (Some (r1, r2, dur))),
                                     Submit r1 r2 task_id (False, False),
                                     Sleep (1 / 20)]\<rparr>)"
    by (rule worker_loop_failed_submit)
next
  assume "\<not> is_object data"
  then show "fetch_task token (Body data) snk = ((JNull, False, False), snk)"
    by (simp add: fetch_task_classify classify_fetch_not_object)
next
  assume "\<not> is_object data"
  then show "submit_results (Body data) = (False, False)"
    by (rule submit_results_not_object)
qed

theorem network_errors_are_caught_witness:
  "worker_loop example_sha ''tok'' [task_response task1, Raised] [(1000, 1004)] [Raised]
     (start [])
   = Stopped \<lparr>success = 0, fail = 1, total = 1, total_time = 1 / 250, sink = [],
       trace = [Fetch, Compute task1 (Inr (Some (1000 / 23, 23 / 4, 1 / 250))),
                Submit (1000 / 23) (23 / 4) (JStr ''t1'') (False, False), Sleep (1 / 20),
                Fetch]\<rparr>"
proof -
  note inst = network_errors_are_caught [where resp = "task_response task1"
      and task_data = task1 and sha = example_sha and ?t0.0 = 1000 and ?t1.0 = 1004
      and ?r1.0 = "1000 / 23" and ?r2.0 = "23 / 4" and dur = "1 / 250"
      and task_id = "JStr ''t1''" and token = "''tok''" and submits = "[]" and clocks = "[]"]
  have pass1: "worker_loop example_sha ''tok'' [task_response task1, Raised] [(1000, 1004)]
      [Raised] (start []) =
    worker_loop example_sha ''tok'' [Raised] [] []
      ((start [])\<lparr>fail := fail (start []) + 1, total := total (start []) + 1,
          total_time := total_time (start []) + 1 / 250,
          trace := trace (start []) @
            [Fetch, Compute task1 (Inr (Some (1000 / 23, 23 / 4, 1 / 250))),
             Submit (1000 / 23) (23 / 4) (JStr ''t1'') (False, False), Sleep (1 / 20)]\<rparr>)"
    using inst [where fetches = "[Raised]" and st = "start []"]
      classify_task_response process_task_example_1 task1_items(4)
    by blast
  have pass2: "worker_loop example_sha ''tok'' [Raised] [] [] st' =
      Stopped (st'\<lparr>trace := trace st' @ [Fetch]\<rparr>)" for st'
    using inst [where fetches = "[]" and st = st'] by blast
  show ?thesis
    unfolding pass1 pass2 by (simp add: start_def)
qed










end
